theory Spec2Isabelle
  imports Main
begin

section \<open>The crawl engine of \<^verbatim>\<open>crab/crawling.go\<close>\<close>

text \<open>
  The engine is \<^verbatim>\<open>threadedCrawl\<close> (the scheduler), \<^verbatim>\<open>crawlURL\<close> (one worker per
  task), \<^verbatim>\<open>isURLAllowedByRobotsTXT\<close> (the robots gate) and \<^verbatim>\<open>createSiteMap\<close>.
  Everything the Go code reaches outside the repository is either a field of the
  record \<open>world\<close> (the network, the robots.txt parser, the JSON encoder, the file
  system) or, where a claim depends on what the Go library computes on a given string,
  a model of the library function written in the order of its Go source
  (\<^verbatim>\<open>net/url.Parse\<close>, the host check of \<^verbatim>\<open>net/http\<close>, the callback order of colly's
  \<^verbatim>\<open>Collector.fetch\<close>). Log lines are not modelled.
\<close>

subsection \<open>Data model\<close>

text \<open>\<^verbatim>\<open>type URLData struct { URL string; Created time.Time; Links []string }\<close>.
  \<open>Created\<close> is a timestamp read by no function of the engine. A nil slice and an empty
  slice are both \<open>[]\<close>.\<close>

record URLData =
  URL :: string
  Created :: nat
  Links :: "string list"

text \<open>A Go \<^verbatim>\<open>error\<close> value with its message.\<close>

datatype error = Error string

subsection \<open>\<^verbatim>\<open>net/url.Parse\<close> (Go standard library)\<close>

text \<open>
  The checks of \<^verbatim>\<open>url.Parse\<close> in source order. Of the parsed URL the model keeps the
  fields below (the gate reads \<open>Host\<close> only); \<^verbatim>\<open>User\<close>, \<^verbatim>\<open>RawPath\<close> and
  \<^verbatim>\<open>ForceQuery\<close> are validated but not stored.
\<close>

record ParsedURL =
  Scheme :: string
  Opaque :: string
  Host :: string
  Path :: string
  RawQuery :: string
  Fragment :: string

datatype encoding =
  encodePath | encodePathSegment | encodeHost | encodeZone
  | encodeUserPassword | encodeQueryComponent | encodeFragment

definition isLower :: "char \<Rightarrow> bool" where
  "isLower c = (c \<in> set ''abcdefghijklmnopqrstuvwxyz'')"

definition isUpper :: "char \<Rightarrow> bool" where
  "isUpper c = (c \<in> set ''ABCDEFGHIJKLMNOPQRSTUVWXYZ'')"

definition isDigit :: "char \<Rightarrow> bool" where
  "isDigit c = (c \<in> set ''0123456789'')"

definition ishex :: "char \<Rightarrow> bool" where
  "ishex c = (isDigit c \<or> c \<in> set ''abcdef'' \<or> c \<in> set ''ABCDEF'')"

definition unhex :: "char \<Rightarrow> nat" where
  "unhex c =
     (if isDigit c then of_char c - of_char CHR ''0''
      else if c \<in> set ''abcdef'' then of_char c - of_char CHR ''a'' + 10
      else if c \<in> set ''ABCDEF'' then of_char c - of_char CHR ''A'' + 10
      else 0)"

definition ToLower :: "string \<Rightarrow> string" where
  "ToLower s = map (\<lambda>c. if isUpper c then char_of (of_char c + (32::nat)) else c) s"

text \<open>\<^verbatim>\<open>stringContainsCTLByte\<close>: a byte below 0x20 or the byte 0x7f.\<close>

definition stringContainsCTLByte :: "string \<Rightarrow> bool" where
  "stringContainsCTLByte s = list_ex (\<lambda>c. (of_char c :: nat) < 32 \<or> (of_char c :: nat) = 127) s"

text \<open>\<^verbatim>\<open>strings.Cut\<close>, \<^verbatim>\<open>strings.IndexByte\<close>, \<^verbatim>\<open>strings.LastIndexByte\<close> for a one-byte
  separator, and \<^verbatim>\<open>strings.Index\<close>; \<open>None\<close> is Go's \<open>-1\<close>.\<close>

definition Cut :: "string \<Rightarrow> char \<Rightarrow> string \<times> string \<times> bool" where
  "Cut s sep =
     (takeWhile (\<lambda>c. c \<noteq> sep) s, drop 1 (dropWhile (\<lambda>c. c \<noteq> sep) s), sep \<in> set s)"

definition IndexByte :: "string \<Rightarrow> char \<Rightarrow> nat option" where
  "IndexByte s c = (if c \<in> set s then Some (length (takeWhile (\<lambda>x. x \<noteq> c) s)) else None)"

definition LastIndexByte :: "string \<Rightarrow> char \<Rightarrow> nat option" where
  "LastIndexByte s c =
     (if c \<in> set s then Some (length s - 1 - length (takeWhile (\<lambda>x. x \<noteq> c) (rev s)))
      else None)"

fun Index :: "string \<Rightarrow> string \<Rightarrow> nat option" where
  "Index [] sub = (if sub = [] then Some 0 else None)"
| "Index (c # s) sub =
     (if take (length sub) (c # s) = sub then Some 0 else map_option Suc (Index s sub))"

text \<open>\<^verbatim>\<open>shouldEscape(c, encodeHost)\<close>, the only mode \<^verbatim>\<open>unescape\<close> asks about: letters
  and digits, the sub-delimiters a host may hold, and the unreserved marks stay.\<close>

definition shouldEscape_encodeHost :: "char \<Rightarrow> bool" where
  "shouldEscape_encodeHost c =
     (\<not> (isLower c \<or> isUpper c \<or> isDigit c)
      \<and> c \<notin> set ''!$&()*+,;=:[]<>'' \<and> c \<noteq> CHR 0x27 \<and> c \<noteq> CHR 0x22
      \<and> c \<notin> set ''-_.~'')"

fun unescape :: "string \<Rightarrow> encoding \<Rightarrow> error + string" where
  "unescape [] mode = Inr []"
| "unescape (c # s) mode =
     (if c = CHR ''%'' then
        (case s of
           h1 # h2 # s' \<Rightarrow>
             if \<not> (ishex h1 \<and> ishex h2) then Inl (Error ''invalid URL escape'')
             else if mode = encodeHost \<and> unhex h1 < 8 \<and> [h1, h2] \<noteq> ''25''
               then Inl (Error ''invalid URL escape'')
             else if mode = encodeZone \<and> [h1, h2] \<noteq> ''25''
                     \<and> unhex h1 * 16 + unhex h2 \<noteq> 32
                     \<and> shouldEscape_encodeHost (char_of (unhex h1 * 16 + unhex h2))
               then Inl (Error ''invalid URL escape'')
             else (case unescape s' mode of
                     Inl e \<Rightarrow> Inl e
                   | Inr t \<Rightarrow> Inr (char_of (unhex h1 * 16 + unhex h2) # t))
         | _ \<Rightarrow> Inl (Error ''invalid URL escape''))
      else if c = CHR ''+'' then
        (case unescape s mode of
           Inl e \<Rightarrow> Inl e
         | Inr t \<Rightarrow> Inr ((if mode = encodeQueryComponent then CHR '' '' else c) # t))
      else if (mode = encodeHost \<or> mode = encodeZone) \<and> (of_char c :: nat) < 128
              \<and> shouldEscape_encodeHost c
        then Inl (Error ''invalid character in host name'')
      else (case unescape s mode of Inl e \<Rightarrow> Inl e | Inr t \<Rightarrow> Inr (c # t)))"

text \<open>\<^verbatim>\<open>getScheme\<close>: the loop over the bytes of \<open>rawURL\<close>; \<open>i\<close> is the index of the
  head of the third argument.\<close>

fun getScheme_loop :: "string \<Rightarrow> nat \<Rightarrow> string \<Rightarrow> error + (string \<times> string)" where
  "getScheme_loop rawURL i [] = Inr ([], rawURL)"
| "getScheme_loop rawURL i (c # cs) =
     (if isLower c \<or> isUpper c then getScheme_loop rawURL (i + 1) cs
      else if isDigit c \<or> c = CHR ''+'' \<or> c = CHR ''-'' \<or> c = CHR ''.'' then
        (if i = 0 then Inr ([], rawURL) else getScheme_loop rawURL (i + 1) cs)
      else if c = CHR '':'' then
        (if i = 0 then Inl (Error ''missing protocol scheme'')
         else Inr (take i rawURL, drop (i + 1) rawURL))
      else Inr ([], rawURL))"

definition getScheme :: "string \<Rightarrow> error + (string \<times> string)" where
  "getScheme rawURL = getScheme_loop rawURL 0 rawURL"

definition validOptionalPort :: "string \<Rightarrow> bool" where
  "validOptionalPort port =
     (case port of
        [] \<Rightarrow> True
      | c # ds \<Rightarrow> c = CHR '':'' \<and> list_all isDigit ds)"

definition validUserinfo :: "string \<Rightarrow> bool" where
  "validUserinfo s =
     list_all (\<lambda>r. isUpper r \<or> isLower r \<or> isDigit r
                    \<or> r \<in> set ''-._:~!$&()*+,;=%@'' \<or> r = CHR 0x27) s"

definition parseHost :: "string \<Rightarrow> error + string" where
  "parseHost host =
     (if take 1 host = ''['' then
        (case LastIndexByte host CHR '']'' of
           None \<Rightarrow> Inl (Error ''missing ] in host'')
         | Some i \<Rightarrow>
             if \<not> validOptionalPort (drop (i + 1) host)
               then Inl (Error ''invalid port after host'')
             else
               (case Index (take i host) ''%25'' of
                  Some zone \<Rightarrow>
                    (case unescape (take zone host) encodeHost of
                       Inl e \<Rightarrow> Inl e
                     | Inr host1 \<Rightarrow>
                         (case unescape (drop zone (take i host)) encodeZone of
                            Inl e \<Rightarrow> Inl e
                          | Inr host2 \<Rightarrow>
                              (case unescape (drop i host) encodeHost of
                                 Inl e \<Rightarrow> Inl e
                               | Inr host3 \<Rightarrow> Inr (host1 @ host2 @ host3))))
                | None \<Rightarrow> unescape host encodeHost))
      else
        (case LastIndexByte host CHR '':'' of
           Some i \<Rightarrow>
             if \<not> validOptionalPort (drop i host)
               then Inl (Error ''invalid port after host'')
             else unescape host encodeHost
         | None \<Rightarrow> unescape host encodeHost))"

text \<open>\<^verbatim>\<open>parseAuthority\<close>, returning the host; the user information is checked and
  dropped.\<close>

definition parseAuthority :: "string \<Rightarrow> error + string" where
  "parseAuthority authority =
     (case LastIndexByte authority CHR ''@'' of
        None \<Rightarrow> parseHost authority
      | Some i \<Rightarrow>
          (case parseHost (drop (i + 1) authority) of
             Inl e \<Rightarrow> Inl e
           | Inr host \<Rightarrow>
               let userinfo = take i authority in
               if \<not> validUserinfo userinfo then Inl (Error ''net/url: invalid userinfo'')
               else if CHR '':'' \<notin> set userinfo then
                 (case unescape userinfo encodeUserPassword of
                    Inl e \<Rightarrow> Inl e
                  | Inr _ \<Rightarrow> Inr host)
               else
                 (case unescape (fst (Cut userinfo CHR '':'')) encodeUserPassword of
                    Inl e \<Rightarrow> Inl e
                  | Inr _ \<Rightarrow>
                      (case unescape (fst (snd (Cut userinfo CHR '':''))) encodeUserPassword of
                         Inl e \<Rightarrow> Inl e
                       | Inr _ \<Rightarrow> Inr host))))"

text \<open>\<^verbatim>\<open>URL.setPath\<close>: the path is the unescaped rest.\<close>

definition setPath :: "ParsedURL \<Rightarrow> string \<Rightarrow> error + ParsedURL" where
  "setPath u p =
     (case unescape p encodePath of Inl e \<Rightarrow> Inl e | Inr path \<Rightarrow> Inr (u\<lparr>Path := path\<rparr>))"

text \<open>\<^verbatim>\<open>parse(rawURL, viaRequest)\<close> with \<open>viaRequest = false\<close>, as \<^verbatim>\<open>Parse\<close> calls it.\<close>

definition parse :: "string \<Rightarrow> error + ParsedURL" where
  "parse rawURL =
     (if stringContainsCTLByte rawURL
        then Inl (Error ''net/url: invalid control character in URL'')
      else if rawURL = ''*''
        then Inr \<lparr>Scheme = [], Opaque = [], Host = [], Path = ''*'', RawQuery = [], Fragment = []\<rparr>
      else
        (case getScheme rawURL of
           Inl e \<Rightarrow> Inl e
         | Inr (scheme0, rest0) \<Rightarrow>
             let scheme = ToLower scheme0;
                 forceQuery = (rest0 \<noteq> [] \<and> last rest0 = CHR ''?''
                               \<and> count_list rest0 CHR ''?'' = 1);
                 rest = (if forceQuery then butlast rest0 else fst (Cut rest0 CHR ''?''));
                 rawQuery = (if forceQuery then [] else fst (snd (Cut rest0 CHR ''?'')));
                 url = \<lparr>Scheme = scheme, Opaque = [], Host = [], Path = [],
                        RawQuery = rawQuery, Fragment = []\<rparr>
             in
             if take 1 rest \<noteq> ''/'' \<and> scheme \<noteq> [] then Inr (url\<lparr>Opaque := rest\<rparr>)
             else if take 1 rest \<noteq> ''/'' \<and> CHR '':'' \<in> set (fst (Cut rest CHR ''/''))
               then Inl (Error ''first path segment in URL cannot contain colon'')
             else if \<not> (scheme = [] \<and> take 3 rest = ''///'') \<and> take 2 rest = ''//'' then
               (let authority0 = drop 2 rest;
                    authority = (case IndexByte authority0 CHR ''/'' of
                                   Some i \<Rightarrow> take i authority0 | None \<Rightarrow> authority0);
                    rest' = (case IndexByte authority0 CHR ''/'' of
                               Some i \<Rightarrow> drop i authority0 | None \<Rightarrow> [])
                in case parseAuthority authority of
                     Inl e \<Rightarrow> Inl e
                   | Inr host \<Rightarrow> setPath (url\<lparr>Host := host\<rparr>) rest')
             else setPath url rest))"

text \<open>\<^verbatim>\<open>url.Parse\<close>: cut the fragment off, parse, unescape the fragment.\<close>

definition url_Parse :: "string \<Rightarrow> error + ParsedURL" where
  "url_Parse rawURL =
     (case parse (fst (Cut rawURL CHR ''#'')) of
        Inl e \<Rightarrow> Inl e
      | Inr url \<Rightarrow>
          let frag = fst (snd (Cut rawURL CHR ''#'')) in
          if frag = [] then Inr url
          else (case unescape frag encodeFragment of
                  Inl e \<Rightarrow> Inl e
                | Inr f \<Rightarrow> Inr (url\<lparr>Fragment := f\<rparr>)))"

subsection \<open>The world outside the process\<close>

text \<open>An HTTP response as the gate sees it.\<close>

record Response =
  StatusCode :: int
  Body :: string

text \<open>\<^verbatim>\<open>robotstxt.RobotsData\<close> is observed through \<^verbatim>\<open>TestAgent(path, agent)\<close> only, so
  a parsed robots.txt is the predicate it implements.\<close>

type_synonym RobotsData = "string \<Rightarrow> string \<Rightarrow> bool"

definition TestAgent :: "RobotsData \<Rightarrow> string \<Rightarrow> string \<Rightarrow> bool" where
  "TestAgent data path agent = data path agent"

text \<open>What the HTTP backend of a collector obtains for one \<^verbatim>\<open>Visit\<close>: the request is
  not issued (\<^verbatim>\<open>Visit\<close> returns an error before any callback), the round trip fails, or
  a response arrives with its status code and, for each \<^verbatim>\<open>a[href]\<close> element of the
  document in order, the value of \<^verbatim>\<open>e.Request.AbsoluteURL(e.Attr("href"))\<close>.\<close>

datatype fetch_outcome =
  NotRequested
  | TransportError
  | HTTPResponse int "string list"

record world =
  transport :: "string \<Rightarrow> error + Response"
  robotstxt_FromResponse :: "Response \<Rightarrow> error + RobotsData"
  page_fetch :: "string \<Rightarrow> fetch_outcome"
  json_encoding :: "(string \<rightharpoonup> string list) \<Rightarrow> string"
  ioutil_WriteFile :: "string \<Rightarrow> string \<Rightarrow> error option"

subsection \<open>\<^verbatim>\<open>net/http.Get\<close>\<close>

text \<open>\<^verbatim>\<open>http.Get\<close> parses the URL (\<^verbatim>\<open>NewRequest\<close>, which also strips an empty port
  from the host), and the transport refuses a scheme other than http and https and an
  empty host before anything is sent; the round trip itself is \<open>transport\<close>.\<close>

definition hasPort :: "string \<Rightarrow> bool" where
  "hasPort s =
     (case LastIndexByte s CHR '':'' of
        None \<Rightarrow> False
      | Some i \<Rightarrow> (case LastIndexByte s CHR '']'' of None \<Rightarrow> True | Some j \<Rightarrow> j < i))"

definition removeEmptyPort :: "string \<Rightarrow> string" where
  "removeEmptyPort host =
     (if hasPort host \<and> host \<noteq> [] \<and> last host = CHR '':'' then butlast host else host)"

definition http_Get :: "world \<Rightarrow> string \<Rightarrow> error + Response" where
  "http_Get w url =
     (case url_Parse url of
        Inl err \<Rightarrow> Inl err
      | Inr u \<Rightarrow>
          if \<not> (Scheme u = ''http'' \<or> Scheme u = ''https'')
            then Inl (Error ''unsupported protocol scheme'')
          else if removeEmptyPort (Host u) = []
            then Inl (Error ''http: no Host in request URL'')
          else transport w url)"

subsection \<open>The robots gate\<close>

definition isURLAllowedByRobotsTXT :: "world \<Rightarrow> string \<Rightarrow> bool" where
  "isURLAllowedByRobotsTXT w urlStr =
     (case url_Parse urlStr of
        Inl err \<Rightarrow> False
      | Inr parsedURL \<Rightarrow>
          let domain = Host parsedURL;
              robotsURL = ''http://'' @ domain @ ''/robots.txt''
          in
          (case http_Get w robotsURL of
             Inl err \<Rightarrow> True
           | Inr resp \<Rightarrow>
               (case robotstxt_FromResponse w resp of
                  Inl err \<Rightarrow> True
                | Inr data \<Rightarrow> TestAgent data urlStr ''GoEngine'')))"

subsection \<open>Collectors and the rate-limit rule\<close>

text \<open>\<^verbatim>\<open>time.Duration\<close> counts nanoseconds.\<close>

definition Second :: int where
  "Second = 1000000000"

record LimitRule =
  DomainGlob :: string
  Delay :: int
  RandomDelay :: int

text \<open>Of a colly collector: the user agent and the limit rules of its HTTP backend.\<close>

record Collector =
  UserAgent :: string
  LimitRules :: "LimitRule list"

definition NewCollector :: "string \<Rightarrow> Collector" where
  "NewCollector userAgent = \<lparr>UserAgent = userAgent, LimitRules = []\<rparr>"

definition Limit :: "Collector \<Rightarrow> LimitRule \<Rightarrow> Collector" where
  "Limit c rule = c\<lparr>LimitRules := LimitRules c @ [rule]\<rparr>"

definition rateLimitRule :: LimitRule where
  "rateLimitRule = \<lparr>DomainGlob = ''*'', Delay = 5 * Second, RandomDelay = 5 * Second\<rparr>"

text \<open>The collector \<open>c\<close> of the goroutine in \<^verbatim>\<open>threadedCrawl\<close> (lines 166 to 169): created,
  limited, and handed to nothing: \<^verbatim>\<open>crawlURL(u, ch, &wg)\<close> does not take it.\<close>

definition threadedCrawl_collector :: "string \<Rightarrow> Collector" where
  "threadedCrawl_collector userAgent = Limit (NewCollector userAgent) rateLimitRule"

text \<open>The collector \<open>c\<close> of \<^verbatim>\<open>crawlURL\<close> (lines 63 to 65), on which the callbacks are
  registered and \<^verbatim>\<open>c.Visit\<close> is called.\<close>

definition crawlURL_collector :: "string \<Rightarrow> Collector" where
  "crawlURL_collector userAgent = NewCollector userAgent"

subsection \<open>The worker\<close>

text \<open>The callbacks \<^verbatim>\<open>crawlURL\<close> registers, as the events one fetch fires.\<close>

datatype callback =
  OnError
  | OnResponse int
  | OnHTML string

text \<open>colly's \<^verbatim>\<open>Collector.fetch\<close>: a failed round trip, or a status of 203 and above
  (\<^verbatim>\<open>ParseHTTPErrorResponse\<close> is off by default and \<^verbatim>\<open>crawlURL\<close> leaves it off), runs the
  error callbacks and stops; otherwise the response callbacks run, and after them the
  HTML callbacks, once per matching element.\<close>

fun colly_fetch :: "fetch_outcome \<Rightarrow> callback list" where
  "colly_fetch NotRequested = []"
| "colly_fetch TransportError = [OnError]"
| "colly_fetch (HTTPResponse status anchors) =
     (if status < 203 then OnResponse status # map OnHTML anchors else [OnError])"

text \<open>One callback of \<^verbatim>\<open>crawlURL\<close> on the captured variable \<open>urlData\<close> and on what the
  worker has sent on \<open>ch\<close> so far. A send copies the struct as it is at that moment. The
  second \<^verbatim>\<open>a[href]\<close> callback only prints.\<close>

fun fire :: "callback \<Rightarrow> URLData \<times> URLData list \<Rightarrow> URLData \<times> URLData list" where
  "fire OnError (urlData, ch) = (urlData, ch)"
| "fire (OnHTML link) (urlData, ch) = (urlData\<lparr>Links := Links urlData @ [link]\<rparr>, ch)"
| "fire (OnResponse status) (urlData, ch) =
     (if status = 200 then (urlData, ch @ [urlData]) else (urlData, ch))"

text \<open>\<^verbatim>\<open>crawlURL\<close>: the values this worker sends on the results channel, in order.\<close>

definition crawlURL :: "world \<Rightarrow> URLData \<Rightarrow> URLData list" where
  "crawlURL w urlData =
     (if \<not> isURLAllowedByRobotsTXT w (URL urlData) then []
      else
        (case fold fire (colly_fetch (page_fetch w (URL urlData))) (urlData, []) of
           (urlData', ch) \<Rightarrow> ch @ [urlData']))"

subsection \<open>The sitemap\<close>

fun siteMap_loop ::
  "URLData list \<Rightarrow> (string \<rightharpoonup> string list) \<Rightarrow> (string \<rightharpoonup> string list)" where
  "siteMap_loop [] siteMap = siteMap"
| "siteMap_loop (u # urls) siteMap = siteMap_loop urls (siteMap(URL u \<mapsto> Links u))"

definition siteMap_of :: "URLData list \<Rightarrow> (string \<rightharpoonup> string list)" where
  "siteMap_of urls = siteMap_loop urls Map.empty"

text \<open>\<^verbatim>\<open>json.Marshal\<close> at the type \<^verbatim>\<open>map[string][]string\<close>: the bytes are the world's
  \<open>json_encoding\<close> of the map and the error is nil. \<^verbatim>\<open>encoding/json\<close> has no error path
  at this type: the keys are strings, the values are slices of strings, invalid UTF-8 is
  replaced and a nil slice is written as \<^verbatim>\<open>null\<close>.\<close>

definition json_Marshal ::
  "world \<Rightarrow> (string \<rightharpoonup> string list) \<Rightarrow> string \<times> error option" where
  "json_Marshal w siteMap = (json_encoding w siteMap, None)"

text \<open>\<^verbatim>\<open>createSiteMap\<close>: the error of \<^verbatim>\<open>json.Marshal\<close> is assigned to \<open>err\<close> and
  overwritten by the result of \<^verbatim>\<open>ioutil.WriteFile\<close> before it is read.\<close>

definition createSiteMap :: "world \<Rightarrow> URLData list \<Rightarrow> error option" where
  "createSiteMap w urls =
     (let siteMap = siteMap_of urls;
          (jsonData, err) = json_Marshal w siteMap;
          err = ioutil_WriteFile w ''siteMap.json'' jsonData
      in case err of Some e \<Rightarrow> Some e | None \<Rightarrow> None)"

subsection \<open>The scheduler\<close>

text \<open>The spawning loop of \<^verbatim>\<open>threadedCrawl\<close>: every iteration launches a worker, then
  breaks when \<^verbatim>\<open>len(urls) >= concurrentCrawlers\<close>. The result is the list of tasks for
  which a worker was launched.\<close>

fun spawn_loop :: "URLData list \<Rightarrow> int \<Rightarrow> int \<Rightarrow> URLData list" where
  "spawn_loop [] len_urls concurrentCrawlers = []"
| "spawn_loop (urlData # rest) len_urls concurrentCrawlers =
     urlData # (if len_urls \<ge> concurrentCrawlers then []
                else spawn_loop rest len_urls concurrentCrawlers)"

definition launched :: "URLData list \<Rightarrow> int \<Rightarrow> URLData list" where
  "launched urls concurrentCrawlers = spawn_loop urls (int (length urls)) concurrentCrawlers"

text \<open>Workers run concurrently: what the drain loop reads is some interleaving of what
  each worker sent, each worker's sends in their order.\<close>

primrec interleavings :: "'a list list \<Rightarrow> 'a list set" where
  "interleavings [] = {[]}"
| "interleavings (xs # xss) = (\<Union>ys \<in> interleavings xss. shuffles xs ys)"

definition threadedCrawl_drained :: "world \<Rightarrow> URLData list \<Rightarrow> int \<Rightarrow> URLData list set" where
  "threadedCrawl_drained w urls concurrentCrawlers =
     interleavings (map (crawlURL w) (launched urls concurrentCrawlers))"

text \<open>The sitemaps a run may hand to the encoder.\<close>

definition threadedCrawl_siteMaps ::
  "world \<Rightarrow> URLData list \<Rightarrow> int \<Rightarrow> (string \<rightharpoonup> string list) set" where
  "threadedCrawl_siteMaps w urls concurrentCrawlers =
     siteMap_of ` threadedCrawl_drained w urls concurrentCrawlers"

subsection \<open>Concrete tasks and worlds\<close>

text \<open>A seed task as \<^verbatim>\<open>getURLsToCrawl\<close> writes it: \<^verbatim>\<open>URLData{URL: url}\<close>.\<close>

definition seed :: "string \<Rightarrow> URLData" where
  "seed url = \<lparr>URL = url, Created = 0, Links = []\<rparr>"

text \<open>The links the \<^verbatim>\<open>a[href]\<close> callbacks of a callback sequence carry.\<close>

definition anchors_of :: "callback list \<Rightarrow> string list" where
  "anchors_of evs = concat (map (\<lambda>e. case e of OnHTML link \<Rightarrow> [link] | _ \<Rightarrow> []) evs)"

text \<open>A world in which every host answers its robots.txt request with an empty
  document, every robots.txt parses and allows everything, no page can be fetched, and
  encoding and writing succeed.\<close>

definition quiet_world :: world where
  "quiet_world =
     \<lparr>transport = (\<lambda>url. Inr \<lparr>StatusCode = 200, Body = []\<rparr>),
      robotstxt_FromResponse = (\<lambda>resp. Inr (\<lambda>path agent. True)),
      page_fetch = (\<lambda>url. TransportError),
      json_encoding = (\<lambda>siteMap. []),
      ioutil_WriteFile = (\<lambda>name data. None)\<rparr>"

text \<open>No host can be reached.\<close>

definition offline_world :: world where
  "offline_world = quiet_world\<lparr>transport := (\<lambda>url. Inl (Error ''dial tcp: no route to host''))\<rparr>"

text \<open>Every robots.txt fails to parse.\<close>

definition garbled_robots_world :: world where
  "garbled_robots_world =
     quiet_world\<lparr>robotstxt_FromResponse := (\<lambda>resp. Inl (Error ''robotstxt: parse error''))\<rparr>"

text \<open>Every host is reachable and every robots.txt denies every path to every agent.\<close>

definition deny_all_world :: world where
  "deny_all_world = quiet_world\<lparr>robotstxt_FromResponse := (\<lambda>resp. Inr (\<lambda>path agent. False))\<rparr>"

text \<open>Every robots.txt is \<^verbatim>\<open>Disallow: /private\<close>: a path is denied when it starts with
  \<^verbatim>\<open>/private\<close>.\<close>

definition private_prefix_world :: world where
  "private_prefix_world =
     quiet_world\<lparr>robotstxt_FromResponse :=
       (\<lambda>resp. Inr (\<lambda>path agent. take 8 path \<noteq> ''/private''))\<rparr>"

text \<open>The file system refuses every write.\<close>

definition read_only_world :: world where
  "read_only_world =
     quiet_world\<lparr>ioutil_WriteFile :=
       (\<lambda>name data. Some (Error ''open siteMap.json: permission denied''))\<rparr>"

text \<open>The three-URL scenario: \<^verbatim>\<open>denied.test\<close> serves a robots.txt that disallows
  everything, \<^verbatim>\<open>missing.test\<close> answers 404, \<^verbatim>\<open>ok.test\<close> answers 200 with two anchors.\<close>

definition disallow_all_txt :: string where
  "disallow_all_txt = ''User-agent: *'' @ [CHR 0x0A] @ ''Disallow: /''"

definition scenario_world :: world where
  "scenario_world =
     \<lparr>transport =
        (\<lambda>url. Inr \<lparr>StatusCode = 200,
                     Body = (if url = ''http://denied.test/robots.txt''
                             then disallow_all_txt else [])\<rparr>),
      robotstxt_FromResponse = (\<lambda>resp. Inr (\<lambda>path agent. Body resp \<noteq> disallow_all_txt)),
      page_fetch =
        (\<lambda>url. if url = ''http://ok.test/''
                 then HTTPResponse 200 [''http://ok.test/a'', ''http://ok.test/b'']
               else if url = ''http://missing.test/'' then HTTPResponse 404 []
               else TransportError),
      json_encoding = (\<lambda>siteMap. []),
      ioutil_WriteFile = (\<lambda>name data. None)\<rparr>"

definition scenario_urls :: "URLData list" where
  "scenario_urls =
     [seed ''http://denied.test/'', seed ''http://missing.test/'', seed ''http://ok.test/'']"

section \<open>Properties\<close>

subsection \<open>Evaluating the URL parser and the gate\<close>

lemmas url_defs =
  url_Parse_def parse_def Cut_def stringContainsCTLByte_def getScheme_def
  isLower_def isUpper_def isDigit_def setPath_def ToLower_def parseAuthority_def
  parseHost_def LastIndexByte_def IndexByte_def shouldEscape_encodeHost_def
  validOptionalPort_def

lemmas gate_defs =
  isURLAllowedByRobotsTXT_def http_Get_def removeEmptyPort_def hasPort_def TestAgent_def

lemma url_Parse_not_a_url:
  "url_Parse ''not a url'' =
     Inr \<lparr>Scheme = [], Opaque = [], Host = [], Path = ''not a url'', RawQuery = [],
          Fragment = []\<rparr>"
  by (simp add: url_defs)

lemma url_Parse_empty_host_robots:
  "url_Parse ''http:///robots.txt'' =
     Inr \<lparr>Scheme = ''http'', Opaque = [], Host = [], Path = ''/robots.txt'', RawQuery = [],
          Fragment = []\<rparr>"
  by (simp add: url_defs)

lemma url_Parse_leading_colon: "url_Parse '':foo'' = Inl (Error ''missing protocol scheme'')"
  by (simp add: url_defs)

lemma http_Get_empty_host:
  "http_Get w ''http:///robots.txt'' = Inl (Error ''http: no Host in request URL'')"
  by (simp add: http_Get_def url_Parse_empty_host_robots removeEmptyPort_def hasPort_def
      LastIndexByte_def)

lemma gate_not_a_url: "isURLAllowedByRobotsTXT w ''not a url''"
  by (simp add: isURLAllowedByRobotsTXT_def url_Parse_not_a_url http_Get_empty_host)

lemma gate_scenario_denied: "\<not> isURLAllowedByRobotsTXT scenario_world ''http://denied.test/''"
  by (simp add: gate_defs url_defs scenario_world_def)

lemma gate_scenario_missing: "isURLAllowedByRobotsTXT scenario_world ''http://missing.test/''"
  by (simp add: gate_defs url_defs scenario_world_def disallow_all_txt_def)

lemma gate_scenario_ok: "isURLAllowedByRobotsTXT scenario_world ''http://ok.test/''"
  by (simp add: gate_defs url_defs scenario_world_def disallow_all_txt_def)

subsection \<open>The robots gate\<close>

text \<open>
  C4. For every URL that parses, if the GET of the host's robots.txt fails, or it succeeds
  and the document fails to parse, \<^verbatim>\<open>isURLAllowedByRobotsTXT\<close> returns true.
\<close>

theorem gate_fail_open:
  assumes "url_Parse urlStr = Inr parsedURL"
    and "(\<exists>err. http_Get w (''http://'' @ Host parsedURL @ ''/robots.txt'') = Inl err)
         \<or> (\<exists>resp err. http_Get w (''http://'' @ Host parsedURL @ ''/robots.txt'') = Inr resp
                \<and> robotstxt_FromResponse w resp = Inl err)"
  shows "isURLAllowedByRobotsTXT w urlStr"
  using assms by (auto simp: isURLAllowedByRobotsTXT_def)

lemma url_Parse_books:
  "url_Parse ''http://books.toscrape.com/'' =
     Inr \<lparr>Scheme = ''http'', Opaque = [], Host = ''books.toscrape.com'', Path = ''/'',
          RawQuery = [], Fragment = []\<rparr>"
  by (simp add: url_defs)

lemma url_Parse_books_robots:
  "url_Parse ''http://books.toscrape.com/robots.txt'' =
     Inr \<lparr>Scheme = ''http'', Opaque = [], Host = ''books.toscrape.com'', Path = ''/robots.txt'',
          RawQuery = [], Fragment = []\<rparr>"
  by (simp add: url_defs)

lemma http_Get_books_robots:
  "http_Get w ''http://books.toscrape.com/robots.txt'' =
     transport w ''http://books.toscrape.com/robots.txt''"
  by (simp add: http_Get_def url_Parse_books_robots removeEmptyPort_def hasPort_def
      LastIndexByte_def)

theorem gate_fail_open_witness:
  "isURLAllowedByRobotsTXT offline_world ''http://books.toscrape.com/''
   \<and> isURLAllowedByRobotsTXT garbled_robots_world ''http://books.toscrape.com/''"
proof
  have "http_Get offline_world (''http://'' @ ''books.toscrape.com'' @ ''/robots.txt'')
          = Inl (Error ''dial tcp: no route to host'')"
    by (simp add: http_Get_books_robots offline_world_def quiet_world_def)
  then show "isURLAllowedByRobotsTXT offline_world ''http://books.toscrape.com/''"
    using gate_fail_open [OF url_Parse_books, of offline_world] by simp
next
  have "http_Get garbled_robots_world (''http://'' @ ''books.toscrape.com'' @ ''/robots.txt'')
          = Inr \<lparr>StatusCode = 200, Body = []\<rparr>
        \<and> robotstxt_FromResponse garbled_robots_world \<lparr>StatusCode = 200, Body = []\<rparr>
          = Inl (Error ''robotstxt: parse error'')"
    by (simp add: http_Get_books_robots garbled_robots_world_def quiet_world_def)
  then show "isURLAllowedByRobotsTXT garbled_robots_world ''http://books.toscrape.com/''"
    using gate_fail_open [OF url_Parse_books, of garbled_robots_world] by simp
qed

text \<open>
  C5, as amended. For every input string that fails URL parsing the gate returns false.
  The string \<^verbatim>\<open>not a url\<close> is not one of them: \<^verbatim>\<open>url.Parse\<close> accepts it as a relative
  reference with an empty host, the GET of \<^verbatim>\<open>http:///robots.txt\<close> fails before anything
  is sent, and the gate returns true, whatever the network does.
\<close>

theorem gate_fail_closed_on_parse_error:
  "(url_Parse urlStr = Inl err \<longrightarrow> \<not> isURLAllowedByRobotsTXT w urlStr)
   \<and> (\<exists>parsedURL. url_Parse ''not a url'' = Inr parsedURL)
   \<and> isURLAllowedByRobotsTXT w ''not a url''"
  by (simp add: isURLAllowedByRobotsTXT_def url_Parse_not_a_url http_Get_empty_host)

theorem gate_fail_closed_on_parse_error_witness:
  "url_Parse '':foo'' = Inl (Error ''missing protocol scheme'')
   \<and> \<not> isURLAllowedByRobotsTXT quiet_world '':foo''"
  using gate_fail_closed_on_parse_error
          [of "'':foo''" "Error ''missing protocol scheme''" quiet_world]
  by (simp add: url_Parse_leading_colon)

text \<open>
  The claim as stated fails at \<^verbatim>\<open>not a url\<close>: even where every robots.txt is served and
  denies everything, the gate returns true for it.
\<close>

theorem gate_not_a_url_counterexample:
  "isURLAllowedByRobotsTXT deny_all_world ''not a url'' = True"
  by (simp add: gate_not_a_url)

text \<open>
  C10. When the URL parses, the GET succeeds and the robots.txt parses, the decision is the
  robots engine's agent test on the whole original URL string, with the agent token
  \<^verbatim>\<open>GoEngine\<close>; the path component of the parsed URL is not what is tested.
\<close>

theorem gate_tests_whole_url:
  assumes "url_Parse urlStr = Inr parsedURL"
    and "http_Get w (''http://'' @ Host parsedURL @ ''/robots.txt'') = Inr resp"
    and "robotstxt_FromResponse w resp = Inr data"
  shows "isURLAllowedByRobotsTXT w urlStr = TestAgent data urlStr ''GoEngine''"
  using assms by (simp add: isURLAllowedByRobotsTXT_def)

lemma url_Parse_books_private:
  "url_Parse ''http://books.toscrape.com/private/x'' =
     Inr \<lparr>Scheme = ''http'', Opaque = [], Host = ''books.toscrape.com'', Path = ''/private/x'',
          RawQuery = [], Fragment = []\<rparr>"
  by (simp add: url_defs)

text \<open>Under \<^verbatim>\<open>Disallow: /private\<close> the URL below is allowed, because the string tested
  starts with \<^verbatim>\<open>http://\<close>; its path alone would be denied.\<close>

theorem gate_tests_whole_url_witness:
  "isURLAllowedByRobotsTXT private_prefix_world ''http://books.toscrape.com/private/x''
     = TestAgent (\<lambda>path agent. take 8 path \<noteq> ''/private'')
         ''http://books.toscrape.com/private/x'' ''GoEngine''
   \<and> isURLAllowedByRobotsTXT private_prefix_world ''http://books.toscrape.com/private/x''
   \<and> \<not> TestAgent (\<lambda>path agent. take 8 path \<noteq> ''/private'') ''/private/x'' ''GoEngine''"
proof -
  have get: "http_Get private_prefix_world (''http://'' @ ''books.toscrape.com'' @ ''/robots.txt'')
          = Inr \<lparr>StatusCode = 200, Body = []\<rparr>"
    by (simp add: http_Get_books_robots private_prefix_world_def quiet_world_def)
  have rob: "robotstxt_FromResponse private_prefix_world \<lparr>StatusCode = 200, Body = []\<rparr>
          = Inr (\<lambda>path agent. take 8 path \<noteq> ''/private'')"
    by (simp add: private_prefix_world_def quiet_world_def)
  have "isURLAllowedByRobotsTXT private_prefix_world ''http://books.toscrape.com/private/x''
     = TestAgent (\<lambda>path agent. take 8 path \<noteq> ''/private'')
         ''http://books.toscrape.com/private/x'' ''GoEngine''"
    using gate_tests_whole_url [OF url_Parse_books_private, of private_prefix_world, simplified]
      get rob by simp
  then show ?thesis by (simp add: TestAgent_def)
qed

subsection \<open>The worker\<close>

lemma fold_fire_urlData:
  "fst (fold fire evs (u, ch)) = u\<lparr>Links := Links u @ anchors_of evs\<rparr>"
  by (induction evs arbitrary: u ch) (auto simp: anchors_of_def split: callback.splits)

text \<open>Whatever the order in which a fetch fires its callbacks, the response callback sends
  once per 200 response and no other callback sends.\<close>

lemma fold_fire_count:
  "length (snd (fold fire evs (u, ch))) = length ch + count_list evs (OnResponse 200)"
proof (induction evs arbitrary: u ch)
  case Nil
  then show ?case by simp
next
  case (Cons e evs)
  show ?case by (cases e) (simp_all add: Cons.IH)
qed

lemma fold_fire_OnHTML:
  "fold fire (map OnHTML anchors) (u, ch) = (u\<lparr>Links := Links u @ anchors\<rparr>, ch)"
  by (induction anchors arbitrary: u) simp_all

lemma crawlURL_denied:
  "\<not> isURLAllowedByRobotsTXT w (URL u) \<Longrightarrow> crawlURL w u = []"
  by (simp add: crawlURL_def)

lemma crawlURL_allowed:
  "isURLAllowedByRobotsTXT w (URL u) \<Longrightarrow>
   crawlURL w u =
     (case page_fetch w (URL u) of
        HTTPResponse status anchors \<Rightarrow>
          if status = 200 then [u, u\<lparr>Links := Links u @ anchors\<rparr>]
          else if status < 203 then [u\<lparr>Links := Links u @ anchors\<rparr>]
          else [u]
      | _ \<Rightarrow> [u])"
  by (simp add: crawlURL_def fold_fire_OnHTML split: fetch_outcome.splits)

lemma crawlURL_URL: "list_all (\<lambda>x. URL x = URL u) (crawlURL w u)"
  by (cases "isURLAllowedByRobotsTXT w (URL u)")
     (simp_all add: crawlURL_denied crawlURL_allowed split: fetch_outcome.splits)

lemma crawlURL_scenario_denied:
  "crawlURL scenario_world (seed ''http://denied.test/'') = []"
  by (simp add: crawlURL_denied seed_def gate_scenario_denied)

lemma crawlURL_scenario_missing:
  "crawlURL scenario_world (seed ''http://missing.test/'') = [seed ''http://missing.test/'']"
  by (simp add: crawlURL_allowed seed_def gate_scenario_missing)
     (simp add: scenario_world_def)

lemma crawlURL_scenario_ok:
  "crawlURL scenario_world (seed ''http://ok.test/'') =
     [seed ''http://ok.test/'',
      (seed ''http://ok.test/'')\<lparr>Links := [''http://ok.test/a'', ''http://ok.test/b'']\<rparr>]"
  by (simp add: crawlURL_allowed seed_def gate_scenario_ok)
     (simp add: scenario_world_def)

text \<open>
  C2. An allowed task whose fetch completes with an HTTP 200 response is sent on the results
  channel exactly twice (by the response callback and by the final send); an allowed task
  whose fetch fails or returns another status is sent exactly once. Every value sent is
  the task (it carries the task's URL).
\<close>

theorem crawlURL_sends_twice_on_200_once_otherwise:
  assumes "isURLAllowedByRobotsTXT w (URL u)"
  shows "(\<forall>anchors. page_fetch w (URL u) = HTTPResponse 200 anchors
            \<longrightarrow> length (crawlURL w u) = 2)
       \<and> ((\<forall>anchors. page_fetch w (URL u) \<noteq> HTTPResponse 200 anchors)
            \<longrightarrow> length (crawlURL w u) = 1)
       \<and> list_all (\<lambda>x. URL x = URL u) (crawlURL w u)"
  using assms
  by (auto simp: crawlURL_allowed crawlURL_URL split: fetch_outcome.splits)

theorem crawlURL_sends_twice_on_200_once_otherwise_witness:
  "isURLAllowedByRobotsTXT scenario_world (URL (seed ''http://ok.test/''))
   \<and> page_fetch scenario_world (URL (seed ''http://ok.test/''))
       = HTTPResponse 200 [''http://ok.test/a'', ''http://ok.test/b'']
   \<and> length (crawlURL scenario_world (seed ''http://ok.test/'')) = 2
   \<and> isURLAllowedByRobotsTXT scenario_world (URL (seed ''http://missing.test/''))
   \<and> page_fetch scenario_world (URL (seed ''http://missing.test/'')) = HTTPResponse 404 []
   \<and> length (crawlURL scenario_world (seed ''http://missing.test/'')) = 1"
proof -
  have ok: "isURLAllowedByRobotsTXT scenario_world (URL (seed ''http://ok.test/''))"
    by (simp add: seed_def gate_scenario_ok)
  have missing: "isURLAllowedByRobotsTXT scenario_world (URL (seed ''http://missing.test/''))"
    by (simp add: seed_def gate_scenario_missing)
  have f_ok: "page_fetch scenario_world (URL (seed ''http://ok.test/''))
       = HTTPResponse 200 [''http://ok.test/a'', ''http://ok.test/b'']"
    by (simp add: seed_def scenario_world_def)
  have f_missing: "page_fetch scenario_world (URL (seed ''http://missing.test/''))
       = HTTPResponse 404 []"
    by (simp add: seed_def scenario_world_def)
  have "length (crawlURL scenario_world (seed ''http://ok.test/'')) = 2"
    using crawlURL_sends_twice_on_200_once_otherwise [OF ok] f_ok by blast
  moreover have "length (crawlURL scenario_world (seed ''http://missing.test/'')) = 1"
    using crawlURL_sends_twice_on_200_once_otherwise [OF missing] f_missing by simp
  ultimately show ?thesis using ok missing f_ok f_missing by blast
qed

text \<open>
  C9, as amended. Within a single task's fetch the response callback runs before the
  link-discovery callbacks: the value sent by the 200-status response callback is the task
  as it was before the fetch, with none of the page's links, and all link-discovery
  callbacks have fired before the final send, whose value carries every link discovered
  from the page.
\<close>

theorem crawlURL_links_only_in_final_send:
  assumes "isURLAllowedByRobotsTXT w (URL u)"
    and "page_fetch w (URL u) = HTTPResponse 200 anchors"
  shows "crawlURL w u = [u, u\<lparr>Links := Links u @ anchors\<rparr>]"
  using assms by (simp add: crawlURL_allowed)

theorem crawlURL_links_only_in_final_send_witness:
  "isURLAllowedByRobotsTXT scenario_world (URL (seed ''http://ok.test/''))
   \<and> page_fetch scenario_world (URL (seed ''http://ok.test/''))
       = HTTPResponse 200 [''http://ok.test/a'', ''http://ok.test/b'']
   \<and> crawlURL scenario_world (seed ''http://ok.test/'') =
       [\<lparr>URL = ''http://ok.test/'', Created = 0, Links = []\<rparr>,
        \<lparr>URL = ''http://ok.test/'', Created = 0,
          Links = [''http://ok.test/a'', ''http://ok.test/b'']\<rparr>]"
proof -
  have ok: "isURLAllowedByRobotsTXT scenario_world (URL (seed ''http://ok.test/''))"
    by (simp add: seed_def gate_scenario_ok)
  have f_ok: "page_fetch scenario_world (URL (seed ''http://ok.test/''))
       = HTTPResponse 200 [''http://ok.test/a'', ''http://ok.test/b'']"
    by (simp add: seed_def scenario_world_def)
  show ?thesis
    using crawlURL_links_only_in_final_send [OF ok f_ok] ok f_ok by (simp add: seed_def)
qed

text \<open>
  The claim as stated fails on a page with two anchors: the value sent in the 200-status
  response callback carries no link, the final send carries both.
\<close>

theorem crawlURL_response_send_counterexample:
  "Links (hd (crawlURL scenario_world (seed ''http://ok.test/''))) = []
   \<and> Links (last (crawlURL scenario_world (seed ''http://ok.test/'')))
       = [''http://ok.test/a'', ''http://ok.test/b'']"
  unfolding crawlURL_scenario_ok by (simp add: seed_def)

subsection \<open>The scheduler\<close>

lemma launched_below_cap:
  "int (length urls) < c \<Longrightarrow> launched urls c = urls"
proof -
  have "n < c \<Longrightarrow> spawn_loop us n c = us" for us n
    by (induction us) simp_all
  then show "int (length urls) < c \<Longrightarrow> launched urls c = urls"
    by (simp add: launched_def)
qed

lemma launched_at_cap:
  "c \<le> int (length urls) \<Longrightarrow> launched urls c = take 1 urls"
  by (cases urls) (simp_all add: launched_def)

lemma distinct_launched:
  "distinct (map URL urls) \<Longrightarrow> distinct (map URL (launched urls c))"
proof (cases "int (length urls) < c")
  case True
  then show "distinct (map URL urls) \<Longrightarrow> ?thesis" by (simp add: launched_below_cap)
next
  case False
  then have "launched urls c = take 1 urls" by (simp add: launched_at_cap)
  then show "distinct (map URL urls) \<Longrightarrow> ?thesis" by (cases urls) simp_all
qed

text \<open>
  C1, evaluated where the claim and the code part. With two tasks and a cap of two (L = C)
  the claim schedules both tasks; the loop launches the first one and breaks, because the
  test \<^verbatim>\<open>len(urls) >= concurrentCrawlers\<close> does not depend on how many tasks the loop has
  seen. With three tasks and a cap of two it launches one worker as well.
\<close>

theorem launched_one_worker_at_cap:
  "launched [a, b] 2 = [a] \<and> launched [a, b, c] 2 = [a]"
  by (simp add: launched_def)

text \<open>
  C7, evaluated on the code. The collector on which \<^verbatim>\<open>crawlURL\<close> registers its callbacks
  and calls \<^verbatim>\<open>Visit\<close> has no limit rule; the rule is set on the collector of the goroutine
  in \<^verbatim>\<open>threadedCrawl\<close>, which performs no request.
\<close>

theorem crawlURL_collector_has_no_limit_rule:
  "LimitRules (crawlURL_collector userAgent) = []
   \<and> LimitRules (threadedCrawl_collector userAgent') = [rateLimitRule]
   \<and> rateLimitRule = \<lparr>DomainGlob = ''*'', Delay = 5000000000, RandomDelay = 5000000000\<rparr>"
  by (simp add: crawlURL_collector_def threadedCrawl_collector_def NewCollector_def Limit_def
      rateLimitRule_def Second_def)

subsection \<open>The sitemap\<close>

lemma createSiteMap_is_write_result:
  "createSiteMap w urls =
     ioutil_WriteFile w ''siteMap.json'' (fst (json_Marshal w (siteMap_of urls)))"
  by (simp add: createSiteMap_def Let_def split: prod.splits option.splits)

text \<open>
  C8. \<^verbatim>\<open>createSiteMap\<close> returns a non-nil error exactly when the JSON serialization of the
  sitemap fails or the file write fails, and the error it returns is the one of the write;
  it returns nil only when the sitemap was serialized and written. The serialization of a
  \<^verbatim>\<open>map[string][]string\<close> does not fail, so the overwritten \<open>err\<close> of \<^verbatim>\<open>json.Marshal\<close> is
  always nil.
\<close>

theorem createSiteMap_reports_failure:
  "snd (json_Marshal w (siteMap_of urls)) = None
   \<and> (createSiteMap w urls \<noteq> None) =
       (snd (json_Marshal w (siteMap_of urls)) \<noteq> None
        \<or> ioutil_WriteFile w ''siteMap.json'' (fst (json_Marshal w (siteMap_of urls))) \<noteq> None)
   \<and> createSiteMap w urls =
       ioutil_WriteFile w ''siteMap.json'' (fst (json_Marshal w (siteMap_of urls)))"
  by (simp add: createSiteMap_is_write_result) (simp add: json_Marshal_def)

theorem createSiteMap_reports_failure_witness:
  "createSiteMap read_only_world [seed ''http://books.toscrape.com/'']
     = Some (Error ''open siteMap.json: permission denied'')
   \<and> createSiteMap quiet_world [seed ''http://books.toscrape.com/''] = None"
  using createSiteMap_reports_failure [of read_only_world "[seed ''http://books.toscrape.com/'']"]
    createSiteMap_reports_failure [of quiet_world "[seed ''http://books.toscrape.com/'']"]
  by (simp add: read_only_world_def quiet_world_def)

lemma siteMap_loop_lookup:
  "siteMap_loop ds m k =
     (case filter (\<lambda>u. URL u = k) ds of
        [] \<Rightarrow> m k
      | e # es \<Rightarrow> Some (Links (last (e # es))))"
  by (induction ds arbitrary: m) (auto split: list.splits)

subsection \<open>A run: what the drain loop reads\<close>

lemma filter_interleavings:
  "ds \<in> interleavings xss \<Longrightarrow> filter P ds \<in> interleavings (map (filter P) xss)"
proof (induction xss arbitrary: ds)
  case Nil
  then show ?case by simp
next
  case (Cons xs xss)
  then obtain ys where ys: "ys \<in> interleavings xss" "ds \<in> shuffles xs ys" by auto
  have "filter P ds \<in> filter P ` shuffles xs ys" using ys(2) by blast
  then have "filter P ds \<in> shuffles (filter P xs) (filter P ys)"
    by (simp add: filter_shuffles)
  with Cons.IH[OF ys(1)] show ?case by auto
qed

lemma interleavings_all_Nil:
  "list_all (\<lambda>xs. xs = []) xss \<Longrightarrow> interleavings xss = {[]}"
  by (induction xss) auto

lemma interleavings_single:
  "list_all (\<lambda>xs. xs = []) as \<Longrightarrow> list_all (\<lambda>xs. xs = []) bs \<Longrightarrow>
   interleavings (as @ xs # bs) = {xs}"
  by (induction as) (auto simp: interleavings_all_Nil)

lemma interleavings_nonempty: "\<exists>ds. ds \<in> interleavings xss"
proof (induction xss)
  case Nil
  then show ?case by simp
next
  case (Cons xs xss)
  then obtain ys where "ys \<in> interleavings xss" by blast
  moreover have "splice xs ys \<in> shuffles xs ys" by (rule splice_in_shuffles)
  ultimately show ?case by auto
qed

text \<open>The drain loop reads as many values as the workers sent.\<close>

lemma length_interleavings:
  "ds \<in> interleavings xss \<Longrightarrow> length ds = sum_list (map length xss)"
  by (induction xss arbitrary: ds) (auto simp: length_shuffles)

lemma filter_crawlURL_other:
  "URL a \<noteq> k \<Longrightarrow> filter (\<lambda>u. URL u = k) (crawlURL w a) = []"
  using crawlURL_URL[of a w] by (auto simp: list_all_iff filter_empty_conv)

lemma filter_crawlURL_same:
  "filter (\<lambda>u. URL u = URL t) (crawlURL w t) = crawlURL w t"
  using crawlURL_URL[of t w] by (auto simp: list_all_iff filter_id_conv)

lemma drained_filter_other:
  assumes "ds \<in> interleavings (map (crawlURL w) L)" "k \<notin> URL ` set L"
  shows "filter (\<lambda>u. URL u = k) ds = []"
proof -
  let ?P = "\<lambda>u. URL u = k"
  have "filter ?P ds \<in> interleavings (map (filter ?P) (map (crawlURL w) L))"
    using assms(1) by (rule filter_interleavings)
  moreover have "list_all (\<lambda>xs. xs = []) (map (filter ?P) (map (crawlURL w) L))"
    using assms(2) by (auto simp: list_all_iff intro!: filter_crawlURL_other)
  ultimately show ?thesis by (simp add: interleavings_all_Nil)
qed

lemma drained_filter_member:
  assumes "distinct (map URL L)" "ds \<in> interleavings (map (crawlURL w) L)" "t \<in> set L"
  shows "filter (\<lambda>u. URL u = URL t) ds = crawlURL w t"
proof -
  let ?P = "\<lambda>u. URL u = URL t"
  obtain as bs where L: "L = as @ t # bs" using assms(3) by (auto dest: split_list)
  have "URL t \<notin> URL ` set as" and "URL t \<notin> URL ` set bs"
    using assms(1) unfolding L by auto
  then have "URL a \<noteq> URL t" if "a \<in> set as \<union> set bs" for a
    using that by (metis UnE imageI)
  then have as: "list_all (\<lambda>xs. xs = []) (map (filter ?P) (map (crawlURL w) as))"
    and bs: "list_all (\<lambda>xs. xs = []) (map (filter ?P) (map (crawlURL w) bs))"
    by (simp_all add: list_all_iff filter_crawlURL_other)
  have "filter ?P ds \<in> interleavings (map (filter ?P) (map (crawlURL w) L))"
    using assms(2) by (rule filter_interleavings)
  then have "filter ?P ds \<in> interleavings
      (map (filter ?P) (map (crawlURL w) as) @ crawlURL w t
         # map (filter ?P) (map (crawlURL w) bs))"
    by (simp add: L filter_crawlURL_same)
  then show ?thesis using interleavings_single[OF as bs] by simp
qed

text \<open>In a run over tasks with distinct URLs, the sitemap maps a launched task's URL to
  the links of the last value its worker sent, and holds no other key.\<close>

lemma siteMap_of_run_member:
  assumes "distinct (map URL L)" "ds \<in> interleavings (map (crawlURL w) L)" "t \<in> set L"
  shows "siteMap_of ds (URL t) =
           (case crawlURL w t of [] \<Rightarrow> None | e # es \<Rightarrow> Some (Links (last (e # es))))"
  by (simp add: siteMap_of_def siteMap_loop_lookup drained_filter_member[OF assms])

lemma siteMap_of_run_other:
  assumes "ds \<in> interleavings (map (crawlURL w) L)" "k \<notin> URL ` set L"
  shows "siteMap_of ds k = None"
  by (simp add: siteMap_of_def siteMap_loop_lookup drained_filter_other[OF assms])

text \<open>
  C6. A task the robots gate denies makes \<^verbatim>\<open>crawlURL\<close> return without sending, and an
  allowed task is sent at least once; in a run over tasks with distinct URLs, the entries
  of the drained sequence that carry a launched task's URL are exactly what its worker
  sent: none for a denied task.
\<close>

theorem denied_task_sends_nothing:
  "(\<not> isURLAllowedByRobotsTXT w (URL t) \<longrightarrow> crawlURL w t = [])
   \<and> (isURLAllowedByRobotsTXT w (URL t) \<longrightarrow> 1 \<le> length (crawlURL w t))
   \<and> (ds \<in> threadedCrawl_drained w urls c \<and> distinct (map URL urls)
        \<and> t \<in> set (launched urls c)
        \<longrightarrow> filter (\<lambda>x. URL x = URL t) ds = crawlURL w t)"
proof (intro conjI impI)
  show "crawlURL w t = []" if "\<not> isURLAllowedByRobotsTXT w (URL t)"
    using that by (rule crawlURL_denied)
  show "1 \<le> length (crawlURL w t)" if "isURLAllowedByRobotsTXT w (URL t)"
    using that by (simp add: crawlURL_allowed split: fetch_outcome.splits)
  show "filter (\<lambda>x. URL x = URL t) ds = crawlURL w t"
    if "ds \<in> threadedCrawl_drained w urls c \<and> distinct (map URL urls)
        \<and> t \<in> set (launched urls c)"
  proof -
    have "distinct (map URL (launched urls c))" using that by (simp add: distinct_launched)
    moreover have "ds \<in> interleavings (map (crawlURL w) (launched urls c))"
      using that by (simp add: threadedCrawl_drained_def)
    ultimately show ?thesis using that by (simp add: drained_filter_member)
  qed
qed

lemma launched_scenario: "launched scenario_urls 10 = scenario_urls"
  by (rule launched_below_cap) (simp add: scenario_urls_def)

lemma drained_scenario:
  "threadedCrawl_drained scenario_world scenario_urls 10 =
     shuffles [seed ''http://missing.test/'']
       [seed ''http://ok.test/'',
        (seed ''http://ok.test/'')\<lparr>Links := [''http://ok.test/a'', ''http://ok.test/b'']\<rparr>]"
  unfolding threadedCrawl_drained_def launched_scenario
  by (auto simp add: scenario_urls_def crawlURL_scenario_denied crawlURL_scenario_missing
      crawlURL_scenario_ok)

theorem denied_task_sends_nothing_witness:
  "\<not> isURLAllowedByRobotsTXT scenario_world (URL (seed ''http://denied.test/''))
   \<and> crawlURL scenario_world (seed ''http://denied.test/'') = []
   \<and> isURLAllowedByRobotsTXT scenario_world (URL (seed ''http://ok.test/''))
   \<and> 1 \<le> length (crawlURL scenario_world (seed ''http://ok.test/''))
   \<and> [seed ''http://ok.test/'', seed ''http://missing.test/'',
       (seed ''http://ok.test/'')\<lparr>Links := [''http://ok.test/a'', ''http://ok.test/b'']\<rparr>]
        \<in> threadedCrawl_drained scenario_world scenario_urls 10
   \<and> distinct (map URL scenario_urls)
   \<and> seed ''http://denied.test/'' \<in> set (launched scenario_urls 10)
   \<and> filter (\<lambda>x. URL x = URL (seed ''http://denied.test/''))
        [seed ''http://ok.test/'', seed ''http://missing.test/'',
         (seed ''http://ok.test/'')\<lparr>Links := [''http://ok.test/a'', ''http://ok.test/b'']\<rparr>]
       = []"
proof -
  let ?ds = "[seed ''http://ok.test/'', seed ''http://missing.test/'',
       (seed ''http://ok.test/'')\<lparr>Links := [''http://ok.test/a'', ''http://ok.test/b'']\<rparr>]"
  have den: "\<not> isURLAllowedByRobotsTXT scenario_world (URL (seed ''http://denied.test/''))"
    by (simp add: seed_def gate_scenario_denied)
  have ok: "isURLAllowedByRobotsTXT scenario_world (URL (seed ''http://ok.test/''))"
    by (simp add: seed_def gate_scenario_ok)
  have ds: "?ds \<in> threadedCrawl_drained scenario_world scenario_urls 10"
    unfolding drained_scenario by simp
  have dist: "distinct (map URL scenario_urls)"
    by (simp add: scenario_urls_def seed_def)
  have mem: "seed ''http://denied.test/'' \<in> set (launched scenario_urls 10)"
    unfolding launched_scenario by (simp add: scenario_urls_def)
  have "crawlURL scenario_world (seed ''http://denied.test/'') = []"
    using denied_task_sends_nothing
            [of scenario_world "seed ''http://denied.test/''" ?ds scenario_urls 10] den
    by blast
  moreover have "filter (\<lambda>x. URL x = URL (seed ''http://denied.test/'')) ?ds
      = crawlURL scenario_world (seed ''http://denied.test/'')"
    using denied_task_sends_nothing
            [of scenario_world "seed ''http://denied.test/''" ?ds scenario_urls 10] ds dist mem
    by blast
  moreover have "1 \<le> length (crawlURL scenario_world (seed ''http://ok.test/''))"
    using denied_task_sends_nothing
            [of scenario_world "seed ''http://ok.test/''" ?ds scenario_urls 10] ok
    by blast
  ultimately show ?thesis using den ok ds dist mem by simp
qed

subsection \<open>The three-URL scenario\<close>

lemma image_singleton:
  "(\<And>x. x \<in> D \<Longrightarrow> f x = c) \<Longrightarrow> D \<noteq> {} \<Longrightarrow> f ` D = {c}"
  by auto

lemma three_url_run:
  assumes urls: "set urls = {d, m, k}" "distinct (map URL urls)"
    and cap: "int (length urls) < c"
    and denied: "\<not> isURLAllowedByRobotsTXT w (URL d)"
    and missing: "isURLAllowedByRobotsTXT w (URL m)" "page_fetch w (URL m) = HTTPResponse 404 as"
    and ok: "isURLAllowedByRobotsTXT w (URL k)" "page_fetch w (URL k) = HTTPResponse 200 [l1, l2]"
  shows "threadedCrawl_siteMaps w urls c =
           {[URL k \<mapsto> Links k @ [l1, l2], URL m \<mapsto> Links m]}"
proof -
  have L: "launched urls c = urls" using cap by (rule launched_below_cap)
  have ne: "interleavings (map (crawlURL w) urls) \<noteq> {}"
    using interleavings_nonempty[of "map (crawlURL w) urls"] by blast
  have dk: "d \<in> set urls" and mk: "m \<in> set urls" and kk: "k \<in> set urls"
    using urls(1) by auto
  have cd: "crawlURL w d = []" using denied by (rule crawlURL_denied)
  have cm: "crawlURL w m = [m]" using missing by (simp add: crawlURL_allowed)
  have ck: "crawlURL w k = [k, k\<lparr>Links := Links k @ [l1, l2]\<rparr>]"
    using ok by (simp add: crawlURL_allowed)
  have "siteMap_of ds = [URL k \<mapsto> Links k @ [l1, l2], URL m \<mapsto> Links m]"
    if ds: "ds \<in> interleavings (map (crawlURL w) urls)" for ds
  proof
    fix key
    have at_m: "siteMap_of ds (URL m) = Some (Links m)"
      using siteMap_of_run_member[OF urls(2) ds mk] cm by simp
    have at_k: "siteMap_of ds (URL k) = Some (Links k @ [l1, l2])"
      using siteMap_of_run_member[OF urls(2) ds kk] ck by simp
    have at_d: "siteMap_of ds (URL d) = None"
      using siteMap_of_run_member[OF urls(2) ds dk] cd by simp
    have mkne: "URL m \<noteq> URL k"
    proof
      assume e: "URL m = URL k"
      then have "m \<noteq> k" using at_m at_k by auto
      moreover have "inj_on URL (set urls)" using urls(2) by (simp add: distinct_map)
      ultimately show False using e mk kk by (blast dest: inj_onD)
    qed
    consider "key = URL k" | "key = URL m" "key \<noteq> URL k"
      | "key = URL d" "key \<noteq> URL k" "key \<noteq> URL m"
      | "key \<notin> URL ` set urls"
    proof -
      have "URL ` set urls = {URL d, URL m, URL k}" using urls(1) by simp
      then show ?thesis using that by blast
    qed
    then show "siteMap_of ds key = [URL k \<mapsto> Links k @ [l1, l2], URL m \<mapsto> Links m] key"
    proof cases
      case 1
      then show ?thesis using at_k mkne by simp
    next
      case 2
      then show ?thesis using at_m by simp
    next
      case 3
      then show ?thesis using at_d by simp
    next
      case 4
      then have "key \<noteq> URL k" and "key \<noteq> URL m" using kk mk by auto
      then show ?thesis using siteMap_of_run_other[OF ds 4] by simp
    qed
  qed
  then have "siteMap_of ` interleavings (map (crawlURL w) urls) =
      {[URL k \<mapsto> Links k @ [l1, l2], URL m \<mapsto> Links m]}"
    using ne by (rule image_singleton)
  then show ?thesis by (simp only: threadedCrawl_siteMaps_def threadedCrawl_drained_def L)
qed

lemma scenario_facts:
  "set scenario_urls
     = {seed ''http://denied.test/'', seed ''http://missing.test/'', seed ''http://ok.test/''}"
  "distinct (map URL scenario_urls)"
  "int (length scenario_urls) < 10"
  "\<not> isURLAllowedByRobotsTXT scenario_world (URL (seed ''http://denied.test/''))"
  "isURLAllowedByRobotsTXT scenario_world (URL (seed ''http://missing.test/''))"
  "page_fetch scenario_world (URL (seed ''http://missing.test/'')) = HTTPResponse 404 []"
  "isURLAllowedByRobotsTXT scenario_world (URL (seed ''http://ok.test/''))"
  "page_fetch scenario_world (URL (seed ''http://ok.test/''))
     = HTTPResponse 200 [''http://ok.test/a'', ''http://ok.test/b'']"
  by (simp_all add: scenario_urls_def seed_def gate_scenario_denied gate_scenario_missing
      gate_scenario_ok)
     (simp_all add: scenario_world_def)

text \<open>
  C3, as amended. For a three-URL run with a cap above three in which one URL is denied by
  the robots gate, one returns HTTP 404 and one returns HTTP 200 with two anchor tags (the
  URLs distinct), the sitemap handed to the encoder has exactly two keys: the 200 URL,
  mapped to the task's links followed by the two discovered links, and the 404 URL, mapped
  to the task's own (empty, for a seed) link list. The denied URL is not a key.
\<close>

theorem three_url_run_siteMap:
  assumes "set urls = {d, m, k}" and "distinct (map URL urls)"
    and "int (length urls) < c"
    and "\<not> isURLAllowedByRobotsTXT w (URL d)"
    and "isURLAllowedByRobotsTXT w (URL m)" and "page_fetch w (URL m) = HTTPResponse 404 as"
    and "isURLAllowedByRobotsTXT w (URL k)"
    and "page_fetch w (URL k) = HTTPResponse 200 [l1, l2]"
  shows "threadedCrawl_siteMaps w urls c =
           {[URL k \<mapsto> Links k @ [l1, l2], URL m \<mapsto> Links m]}
         \<and> dom [URL k \<mapsto> Links k @ [l1, l2], URL m \<mapsto> Links m] = {URL k, URL m}
         \<and> URL d \<notin> {URL k, URL m}"
proof -
  have "inj_on URL (set urls)" using assms(2) by (simp add: distinct_map)
  moreover have "d \<noteq> k" and "d \<noteq> m" using assms(4,5,7) by auto
  ultimately have "URL d \<noteq> URL k" and "URL d \<noteq> URL m"
    using assms(1) by (auto dest: inj_onD)
  then show ?thesis using three_url_run[OF assms] by auto
qed

theorem three_url_run_siteMap_witness:
  "threadedCrawl_siteMaps scenario_world scenario_urls 10 =
     {[''http://ok.test/'' \<mapsto> [''http://ok.test/a'', ''http://ok.test/b''],
       ''http://missing.test/'' \<mapsto> []]}"
  using three_url_run_siteMap [OF scenario_facts] by (simp add: seed_def)

text \<open>
  The claim as stated fails on the scenario: in every sitemap the run can produce the 404
  URL is a key, so the sitemap has two keys, not one.
\<close>

theorem three_url_run_counterexample:
  "dom ` threadedCrawl_siteMaps scenario_world scenario_urls 10
     = {{''http://ok.test/'', ''http://missing.test/''}}"
  using three_url_run [OF scenario_facts] by (simp add: seed_def insert_commute)

end
